theory Spec2Isabelle
  imports Complex_Main "HOL-Library.AList"
begin

section \<open>Python runtime: errors, formatting, the random module\<close>

text \<open>
  The exceptions the simulator can raise: a failed \<open>assert\<close>, \<open>max()\<close> of an empty
  sequence, \<open>random.choice\<close> of an empty sequence, and a division by zero. Nothing in
  the program catches them, so an error ends the run.
\<close>

datatype error = AssertionError | ValueError | IndexError | ZeroDivisionError

text \<open>\<open>str(n)\<close> for a Python integer: decimal digits, with a minus sign when negative.\<close>

fun str_nat :: "nat \<Rightarrow> string" where
  "str_nat n =
     (if n < 10 then [''0123456789'' ! n]
      else str_nat (n div 10) @ [''0123456789'' ! (n mod 10)])"

declare str_nat.simps [simp del]

definition str_int :: "int \<Rightarrow> string" where
  "str_int i = (if i < 0 then CHR ''-'' # str_nat (nat (- i)) else str_nat (nat i))"

text \<open>
  A miner is a Python object compared by identity (\<open>block.miner == self\<close>, the class
  defines no \<open>__eq__\<close>); the model names each miner object by a number.
\<close>

type_synonym miner_id = nat

text \<open>
  Two things the program takes from outside its own text: the SHA-256 digest of
  \<open>hashlib\<close>, and the text that \<open>f"{miner}"\<close> produces for a Miner object (the class
  defines no \<open>__str__\<close>, so this is the default representation, which contains the
  object's address). Both are parameters of the model.
\<close>

record runtime =
  sha256_hex :: "string \<Rightarrow> string"
  miner_str :: "miner_id \<Rightarrow> string"

text \<open>
  The process-wide generator of the \<open>random\<close> module. The program never seeds it. The
  model lets it return any sequence of values: the \<open>n\<close>-th call returns
  \<open>random_at n\<close> when it is \<open>random.random()\<close>, and the element at position
  \<open>randbelow_at n len mod len\<close> when it is \<open>random.choice\<close> of \<open>len\<close> elements.
  \<open>random.random()\<close> returns a float; the model reads it as a real number.
\<close>

record rng =
  random_at :: "nat \<Rightarrow> real"
  randbelow_at :: "nat \<Rightarrow> nat \<Rightarrow> nat"
  calls :: nat

definition random_random :: "rng \<Rightarrow> real \<times> rng" where
  "random_random g = (random_at g (calls g), g\<lparr>calls := Suc (calls g)\<rparr>)"

definition random_choice :: "rng \<Rightarrow> 'a list \<Rightarrow> error + ('a \<times> rng)" where
  "random_choice g xs =
     (if xs = [] then Inl IndexError
      else Inr (xs ! (randbelow_at g (calls g) (length xs) mod length xs),
                g\<lparr>calls := Suc (calls g)\<rparr>))"

section \<open>Block\<close>

datatype block =
  Block (height: int) (time: int) (hash: string) (miner: "miner_id option")
        (parent: "block option")

definition fmt_miner :: "runtime \<Rightarrow> miner_id option \<Rightarrow> string" where
  "fmt_miner rt mo = (case mo of None \<Rightarrow> ''None'' | Some i \<Rightarrow> miner_str rt i)"

text \<open>\<open>Block.__init__\<close>: the hash is the digest of \<open>f"{height}{miner}{parent_hash}"\<close>.\<close>

definition new_block ::
  "runtime \<Rightarrow> int \<Rightarrow> int \<Rightarrow> block option \<Rightarrow> miner_id option \<Rightarrow> block" where
  "new_block rt h t p m =
     (let parent_hash = (case p of Some b \<Rightarrow> hash b | None \<Rightarrow> replicate 64 CHR ''0'');
          preimage = str_int h @ fmt_miner rt m @ parent_hash
      in Block h t (sha256_hex rt preimage) m p)"

section \<open>Connection\<close>

record queue_entry =
  block :: block
  tts :: int

record connection =
  sender :: miner_id
  receiver :: miner_id
  delay :: int
  blocks_to_send :: "queue_entry list"

definition new_connection :: "miner_id \<Rightarrow> miner_id \<Rightarrow> int \<Rightarrow> connection" where
  "new_connection s r d = \<lparr>sender = s, receiver = r, delay = d, blocks_to_send = []\<rparr>"

definition queue_block :: "block \<Rightarrow> connection \<Rightarrow> connection" where
  "queue_block b c =
     c\<lparr>blocks_to_send := blocks_to_send c @ [\<lparr>block = b, tts = delay c\<rparr>]\<rparr>"

section \<open>Miner\<close>

text \<open>
  The two dictionaries are association lists in insertion order, as a Python \<open>dict\<close>
  iterates: \<open>AList.update\<close> overwrites the value of a key in place or appends a new key
  at the end, and \<open>AList.delete\<close> is \<open>pop\<close>.
\<close>

type_synonym block_dict = "(string \<times> block) list"

definition contains :: "block_dict \<Rightarrow> string \<Rightarrow> bool" where
  "contains d k = (k \<in> set (map fst d))"

record miner =
  ident :: miner_id
  name :: string
  hashrate_proportion :: real
  probability_per_second :: real
  current_block :: block
  block_candidates :: "block list"
  connections :: "connection list"
  known_blocks :: block_dict
  rejected_blocks :: block_dict
  blocks_mined :: int

text \<open>\<open>Miner.__init__\<close>; \<open>i\<close> is the identity of the new object.\<close>

definition new_miner :: "miner_id \<Rightarrow> string \<Rightarrow> block \<Rightarrow> real \<Rightarrow> miner" where
  "new_miner i nm initial_block hr =
     \<lparr>ident = i, name = nm, hashrate_proportion = hr,
      probability_per_second = hr * (1 - exp (- 1 / 600)),
      current_block = initial_block, block_candidates = [], connections = [],
      known_blocks = [(hash initial_block, initial_block)], rejected_blocks = [],
      blocks_mined = 0\<rparr>"

definition add_connection :: "miner_id \<Rightarrow> int \<Rightarrow> miner \<Rightarrow> miner" where
  "add_connection other d m =
     m\<lparr>connections := connections m @ [new_connection (ident m) other d]\<rparr>"

definition is_mine :: "miner \<Rightarrow> block \<Rightarrow> bool" where
  "is_mine m b = (miner b = Some (ident m))"

text \<open>
  \<open>evaluate_candidates\<close>: \<open>max\<close> raises ValueError on an empty candidate list; the loop
  returns at the first own block of maximum height; otherwise \<open>random.choice\<close>.
\<close>

definition evaluate_candidates :: "miner \<Rightarrow> rng \<Rightarrow> error + (miner \<times> rng)" where
  "evaluate_candidates m g =
     (if block_candidates m = [] then Inl ValueError
      else
        let max_height = Max (set (map height (block_candidates m)));
            candidates_max_height =
              filter (\<lambda>b. height b = max_height) (block_candidates m)
        in case find (is_mine m) candidates_max_height of
             Some candidate \<Rightarrow>
               Inr (m\<lparr>current_block := candidate, block_candidates := []\<rparr>, g)
           | None \<Rightarrow>
               (case random_choice g candidates_max_height of
                  Inl e \<Rightarrow> Inl e
                | Inr (chosen, g') \<Rightarrow>
                    Inr (m\<lparr>current_block := chosen, block_candidates := []\<rparr>, g')))"

definition announce :: "block \<Rightarrow> miner \<Rightarrow> miner" where
  "announce b m =
     m\<lparr>blocks_mined := blocks_mined m + 1,
       connections := map (queue_block b) (connections m)\<rparr>"

definition mine :: "runtime \<Rightarrow> int \<Rightarrow> miner \<Rightarrow> rng \<Rightarrow> error + (miner \<times> rng)" where
  "mine rt t m g =
     (case (if length (block_candidates m) > 0 then evaluate_candidates m g
            else Inr (m, g)) of
        Inl e \<Rightarrow> Inl e
      | Inr (m1, g1) \<Rightarrow>
          (case random_random g1 of
             (u, g2) \<Rightarrow>
               if u < probability_per_second m1 then
                 let found_block =
                       new_block rt (height (current_block m1) + 1) t
                         (Some (current_block m1)) (Some (ident m1));
                     m2 = m1\<lparr>known_blocks :=
                              AList.update (hash found_block) found_block (known_blocks m1)\<rparr>;
                     m3 = m2\<lparr>block_candidates := block_candidates m2 @ [found_block]\<rparr>
                 in Inr (announce found_block m3, g2)
               else Inr (m1, g2)))"

text \<open>
  The scan of \<open>refresh_rejects\<close>: the first rejected block, in dictionary order, whose
  parent's hash is known; the assertion is checked on every block the scan visits.
\<close>

fun scan_rejects :: "block_dict \<Rightarrow> block_dict \<Rightarrow> error + (string \<times> block) option" where
  "scan_rejects known [] = Inr None"
| "scan_rejects known ((reject_hash, reject_block) # rest) =
     (case parent reject_block of
        None \<Rightarrow> Inl AssertionError
      | Some p \<Rightarrow>
          if contains known (hash p) then Inr (Some (reject_hash, reject_block))
          else scan_rejects known rest)"

function refresh_rejects :: "miner \<Rightarrow> error + miner" where
  "refresh_rejects m =
     (case scan_rejects (known_blocks m) (rejected_blocks m) of
        Inl e \<Rightarrow> Inl e
      | Inr None \<Rightarrow> Inr m
      | Inr (Some (moved, reject_block)) \<Rightarrow>
          refresh_rejects
            (m\<lparr>known_blocks := AList.update moved reject_block (known_blocks m),
               rejected_blocks := AList.delete moved (rejected_blocks m)\<rparr>))"
  by pat_completeness auto
termination
proof (relation "measure (\<lambda>m. length (rejected_blocks m))")
  show "wf (measure (\<lambda>m. length (rejected_blocks m)))"
    by simp
next
  fix m :: miner and hit x moved reject_block
  assume scan: "scan_rejects (known_blocks m) (rejected_blocks m) = Inr hit"
    and hit: "hit = Some x" and x: "(moved, reject_block) = x"
  have found: "scan_rejects known rs = Inr (Some (h, b)) \<Longrightarrow> (h, b) \<in> set rs"
    for known rs h b
    by (induction rs) (auto split: option.splits if_splits)
  have shorter: "(h, b) \<in> set rs \<Longrightarrow> length (AList.delete h rs) < length rs"
    for h :: string and b :: block and rs
    by (induction rs) (auto simp: AList.delete_eq less_Suc_eq_le)
  from scan hit x
  have "scan_rejects (known_blocks m) (rejected_blocks m) = Inr (Some (moved, reject_block))"
    by simp
  then have "(moved, reject_block) \<in> set (rejected_blocks m)"
    by (rule found)
  then show "(m\<lparr>known_blocks := AList.update moved reject_block (known_blocks m),
               rejected_blocks := AList.delete moved (rejected_blocks m)\<rparr>, m)
             \<in> measure (\<lambda>m. length (rejected_blocks m))"
    using shorter by simp
qed

declare refresh_rejects.simps [simp del]

definition receive_block :: "block \<Rightarrow> miner \<Rightarrow> error + miner" where
  "receive_block b m =
     (case parent b of
        None \<Rightarrow> Inl AssertionError
      | Some p \<Rightarrow>
          if contains (known_blocks m) (hash b) then Inr m
          else if \<not> contains (known_blocks m) (hash p) then
            Inr (m\<lparr>rejected_blocks := AList.update (hash b) b (rejected_blocks m)\<rparr>)
          else
            (case refresh_rejects
                    (m\<lparr>known_blocks := AList.update (hash b) b (known_blocks m)\<rparr>) of
               Inl e \<Rightarrow> Inl e
             | Inr m' \<Rightarrow>
                 if height b > height (current_block m') then
                   Inr (m'\<lparr>block_candidates := block_candidates m' @ [b]\<rparr>)
                 else Inr m'))"

text \<open>
  \<open>Connection.send_block\<close> and \<open>Connection.tick\<close>. The receiver is another object;
  \<open>tick\<close> takes its state and returns it updated. \<open>tick_entries\<close> is the \<open>for\<close> loop,
  with the list \<open>remaining\<close> built so far.
\<close>

definition send_block :: "block \<Rightarrow> miner \<Rightarrow> error + miner" where
  "send_block b r =
     (case miner b of None \<Rightarrow> Inl AssertionError | Some _ \<Rightarrow> receive_block b r)"

fun tick_entries ::
  "queue_entry list \<Rightarrow> queue_entry list \<Rightarrow> miner \<Rightarrow> error + (queue_entry list \<times> miner)"
  where
  "tick_entries [] remaining r = Inr (remaining, r)"
| "tick_entries (entry # rest) remaining r =
     (if tts entry = 0 then
        (case send_block (block entry) r of
           Inl e \<Rightarrow> Inl e
         | Inr r' \<Rightarrow> tick_entries rest remaining r')
      else tick_entries rest (remaining @ [entry\<lparr>tts := tts entry - 1\<rparr>]) r)"

definition tick :: "connection \<Rightarrow> miner \<Rightarrow> error + (connection \<times> miner)" where
  "tick c r =
     (if length (blocks_to_send c) = 0 then Inr (c, r)
      else
        (case tick_entries (blocks_to_send c) [] r of
           Inl e \<Rightarrow> Inl e
         | Inr (remaining, r') \<Rightarrow> Inr (c\<lparr>blocks_to_send := remaining\<rparr>, r')))"

section \<open>Driver\<close>

text \<open>
  The list \<open>miners\<close> of \<open>main\<close>: the miner object with identity \<open>i\<close> is at position
  \<open>i\<close>, and a connection's receiver is such a position. \<open>send_messages\<close> ticks the
  connections of miner \<open>i\<close> in order; each tick updates the receiver and then the
  connection's own queue.
\<close>

fun send_messages_loop :: "nat \<Rightarrow> nat list \<Rightarrow> miner list \<Rightarrow> error + miner list" where
  "send_messages_loop i [] w = Inr w"
| "send_messages_loop i (j # js) w =
     (let c = connections (w ! i) ! j in
      case tick c (w ! receiver c) of
        Inl e \<Rightarrow> Inl e
      | Inr (c', r') \<Rightarrow>
          let w1 = w[receiver c := r'];
              w2 = w1[i := (w1 ! i)\<lparr>connections := (connections (w1 ! i))[j := c']\<rparr>]
          in send_messages_loop i js w2)"

definition send_messages :: "nat \<Rightarrow> miner list \<Rightarrow> error + miner list" where
  "send_messages i w = send_messages_loop i [0..<length (connections (w ! i))] w"

fun announcement_phase :: "nat list \<Rightarrow> miner list \<Rightarrow> error + miner list" where
  "announcement_phase [] w = Inr w"
| "announcement_phase (i # rest) w =
     (case send_messages i w of
        Inl e \<Rightarrow> Inl e
      | Inr w' \<Rightarrow> announcement_phase rest w')"

fun mining_phase ::
  "runtime \<Rightarrow> int \<Rightarrow> nat list \<Rightarrow> miner list \<Rightarrow> rng \<Rightarrow> error + (miner list \<times> rng)" where
  "mining_phase rt t [] w g = Inr (w, g)"
| "mining_phase rt t (i # rest) w g =
     (case mine rt t (w ! i) g of
        Inl e \<Rightarrow> Inl e
      | Inr (m', g') \<Rightarrow> mining_phase rt t rest (w[i := m']) g')"

text \<open>One iteration of the loop of \<open>main\<close>, at time \<open>t\<close>.\<close>

definition sim_tick :: "runtime \<Rightarrow> int \<Rightarrow> miner list \<Rightarrow> rng \<Rightarrow> error + (miner list \<times> rng)" where
  "sim_tick rt t w g =
     (case announcement_phase [0..<length w] w of
        Inl e \<Rightarrow> Inl e
      | Inr w' \<Rightarrow> mining_phase rt t [0..<length w'] w' g)"

text \<open>\<open>range(lo, hi)\<close> over Python integers.\<close>

definition py_range :: "int \<Rightarrow> int \<Rightarrow> int list" where
  "py_range lo hi = [lo..hi - 1]"

fun run_ticks ::
  "runtime \<Rightarrow> int list \<Rightarrow> miner list \<Rightarrow> rng \<Rightarrow> error + (miner list \<times> rng)" where
  "run_ticks rt [] w g = Inr (w, g)"
| "run_ticks rt (t # ts) w g =
     (case sim_tick rt t w g of
        Inl e \<Rightarrow> Inl e
      | Inr (w', g') \<Rightarrow> run_ticks rt ts w' g')"

definition seconds_to_simulate :: "int \<Rightarrow> int" where
  "seconds_to_simulate block_periods_to_simulate = block_periods_to_simulate * 600"

definition genesis_block :: "runtime \<Rightarrow> block" where
  "genesis_block rt = new_block rt 0 0 None None"

definition initial_miners :: "runtime \<Rightarrow> miner list" where
  "initial_miners rt =
     [add_connection 2 5 (add_connection 1 0 (new_miner 0 ''A'' (genesis_block rt) (3 / 10))),
      add_connection 2 0 (add_connection 0 0 (new_miner 1 ''B'' (genesis_block rt) (3 / 10))),
      add_connection 1 0 (add_connection 0 0 (new_miner 2 ''C'' (genesis_block rt) (4 / 10)))]"

text \<open>
  The end-of-run report of one miner. The \<open>while\<close> loop walks the parent links from
  the tip to the genesis block; \<open>/\<close> on Python integers raises ZeroDivisionError when
  the divisor is 0 and is read here as exact division.
\<close>

fun blocks_in_chain :: "miner_id \<Rightarrow> block \<Rightarrow> int" where
  "blocks_in_chain i (Block h t hs mo po) =
     (case po of
        None \<Rightarrow> 0
      | Some p \<Rightarrow> (if mo = Some i then 1 else 0) + blocks_in_chain i p)"

definition truediv :: "int \<Rightarrow> int \<Rightarrow> error + real" where
  "truediv a b = (if b = 0 then Inl ZeroDivisionError else Inr (real_of_int a / real_of_int b))"

record summary =
  tip_height :: int
  total_known :: nat
  in_chain :: int
  found :: int
  chain_share :: "real option"
  stale_blocks :: int
  stale_rate :: real

definition report_miner :: "miner \<Rightarrow> error + summary" where
  "report_miner m =
     (let n = blocks_in_chain (ident m) (current_block m) in
      case (if height (current_block m) > 0
            then map_sum id Some (truediv n (height (current_block m)))
            else Inr None) of
        Inl e \<Rightarrow> Inl e
      | Inr share \<Rightarrow>
          (case truediv (blocks_mined m - n) (blocks_mined m) of
             Inl e \<Rightarrow> Inl e
           | Inr rate \<Rightarrow>
               Inr \<lparr>tip_height = height (current_block m),
                    total_known = length (known_blocks m),
                    in_chain = n, found = blocks_mined m, chain_share = share,
                    stale_blocks = blocks_mined m - n, stale_rate = rate\<rparr>))"

fun report_all :: "miner list \<Rightarrow> error + summary list" where
  "report_all [] = Inr []"
| "report_all (m # ms) =
     (case report_miner m of
        Inl e \<Rightarrow> Inl e
      | Inr s \<Rightarrow> (case report_all ms of Inl e \<Rightarrow> Inl e | Inr ss \<Rightarrow> Inr (s # ss)))"

definition main :: "runtime \<Rightarrow> rng \<Rightarrow> int \<Rightarrow> error + (miner list \<times> summary list)" where
  "main rt g block_periods_to_simulate =
     (case run_ticks rt (py_range 1 (seconds_to_simulate block_periods_to_simulate))
             (initial_miners rt) g of
        Inl e \<Rightarrow> Inl e
      | Inr (w, g') \<Rightarrow>
          (case report_all w of Inl e \<Rightarrow> Inl e | Inr ss \<Rightarrow> Inr (w, ss)))"

section \<open>Notions used to state the properties\<close>



definition kept_entries :: "queue_entry list \<Rightarrow> queue_entry list" where
  "kept_entries q = map (\<lambda>e. e\<lparr>tts := tts e - 1\<rparr>) (filter (\<lambda>e. tts e \<noteq> 0) q)"

text \<open>
  The life of a connection: ticks that raise no error, and blocks queued in between,
  in any order.
\<close>

datatype event = Tick | Queue block

fun after :: "event list \<Rightarrow> connection \<Rightarrow> connection" where
  "after [] c = c"
| "after (Tick # evs) c = after evs (c\<lparr>blocks_to_send := kept_entries (blocks_to_send c)\<rparr>)"
| "after (Queue b # evs) c = after evs (queue_block b c)"



definition known_parent :: "block_dict \<Rightarrow> block \<Rightarrow> bool" where
  "known_parent known b =
     (case parent b of None \<Rightarrow> False | Some p \<Rightarrow> contains known (hash p))"

definition rejects_are_orphans :: "miner \<Rightarrow> bool" where
  "rejects_are_orphans m =
     list_all (\<lambda>x. \<not> known_parent (known_blocks m) (snd x)) (rejected_blocks m)"

text \<open>
  Concrete values for the examples. The stand-in runtime takes the preimage itself as
  the digest, so that different preimages have different hashes, as is assumed of
  SHA-256.
\<close>

definition demo_runtime :: runtime where
  "demo_runtime = \<lparr>sha256_hex = (\<lambda>s. s), miner_str = (\<lambda>i. ''<Miner '' @ str_nat i @ ''>'')\<rparr>"

definition demo_miner :: miner where
  "demo_miner = new_miner 0 ''A'' (genesis_block demo_runtime) (3 / 10)"

definition demo_rival :: block where
  "demo_rival = new_block demo_runtime 1 3 (Some (genesis_block demo_runtime)) (Some 1)"

definition demo_own :: block where
  "demo_own = new_block demo_runtime 1 5 (Some (genesis_block demo_runtime)) (Some 0)"

definition demo_child :: block where
  "demo_child = new_block demo_runtime 2 4 (Some demo_rival) (Some 2)"


definition demo_rng :: rng where
  "demo_rng = \<lparr>random_at = (\<lambda>n. 0), randbelow_at = (\<lambda>n len. 0), calls = 0\<rparr>"

section \<open>Dictionaries and reconciliation\<close>

lemma contains_update:
  "contains (AList.update k v d) k' = (k' = k \<or> contains d k')"
  using dom_update [of k v d] by (auto simp: contains_def)

lemma contains_delete:
  "contains (AList.delete k d) k' = (k' \<noteq> k \<and> contains d k')"
  by (auto simp: contains_def delete_keys)

lemma set_update_subset: "set (AList.update k v al) \<subseteq> insert (k, v) (set al)"
  by (induction al) auto

text \<open>
  The recursion of \<open>refresh_rejects\<close> as a loop: a property that holds at the start and
  that every move of a block keeps holds at the end, where the scan finds nothing left
  to move.
\<close>

lemma refresh_rejects_rule:
  assumes "refresh_rejects m = Inr m'" and "P m"
    and step: "\<And>m h b. P m \<Longrightarrow>
      scan_rejects (known_blocks m) (rejected_blocks m) = Inr (Some (h, b)) \<Longrightarrow>
      P (m\<lparr>known_blocks := AList.update h b (known_blocks m),
           rejected_blocks := AList.delete h (rejected_blocks m)\<rparr>)"
  shows "P m' \<and> scan_rejects (known_blocks m') (rejected_blocks m') = Inr None"
  using assms(1,2)
proof (induction m rule: refresh_rejects.induct)
  case (1 m)
  show ?case
  proof (cases "scan_rejects (known_blocks m) (rejected_blocks m)")
    case (Inl e)
    with "1.prems" show ?thesis by (simp add: refresh_rejects.simps [of m])
  next
    case (Inr hit)
    show ?thesis
    proof (cases hit)
      case None
      with Inr "1.prems" show ?thesis by (simp add: refresh_rejects.simps [of m])
    next
      case (Some x)
      obtain h b where x: "x = (h, b)" by (cases x)
      let ?m = "m\<lparr>known_blocks := AList.update h b (known_blocks m),
                  rejected_blocks := AList.delete h (rejected_blocks m)\<rparr>"
      from Inr Some x "1.prems"(1) have "refresh_rejects ?m = Inr m'"
        by (simp add: refresh_rejects.simps [of m])
      moreover from "1.prems"(2) Inr Some x have "P ?m"
        by (intro step) simp_all
      ultimately show ?thesis
        using "1.IH" [OF Inr Some x [symmetric]] by simp
    qed
  qed
qed

lemma refresh_rejects_frame:
  assumes "refresh_rejects m = Inr m'"
  shows "ident m' = ident m \<and> current_block m' = current_block m \<and>
     block_candidates m' = block_candidates m \<and> connections m' = connections m \<and>
     blocks_mined m' = blocks_mined m \<and>
     probability_per_second m' = probability_per_second m"
  using refresh_rejects_rule [OF assms, where P = "\<lambda>x.
     ident x = ident m \<and> current_block x = current_block m \<and>
     block_candidates x = block_candidates m \<and> connections x = connections m \<and>
     blocks_mined x = blocks_mined m \<and>
     probability_per_second x = probability_per_second m"]
  by simp

lemma refresh_rejects_known_mono:
  assumes "refresh_rejects m = Inr m'" and "contains (known_blocks m) k"
  shows "contains (known_blocks m') k"
  using refresh_rejects_rule [OF assms(1), where P = "\<lambda>x. contains (known_blocks x) k"] assms(2)
  by (simp add: contains_update)

section \<open>Fork choice\<close>

lemma max_height_candidates_nonempty:
  assumes "cs \<noteq> []"
  shows "filter (\<lambda>b. height b = Max (set (map height cs))) cs \<noteq> []"
proof -
  have "Max (set (map height cs)) \<in> set (map height cs)"
    using assms by (intro Max_in) auto
  then obtain b where "b \<in> set cs" "height b = Max (set (map height cs))"
    by auto
  then show ?thesis by (auto simp: filter_empty_conv)
qed

lemma evaluate_candidates_succeeds:
  assumes "block_candidates m \<noteq> []"
  shows "\<exists>r. evaluate_candidates m g = Inr r"
  using assms max_height_candidates_nonempty [OF assms]
  by (auto simp: evaluate_candidates_def random_choice_def Let_def split: option.splits)

lemma find_SomeD: "find P xs = Some x \<Longrightarrow> x \<in> set xs \<and> P x"
  by (induction xs) (auto split: if_splits)

lemma demo_heights:
  "height demo_rival = 1" "height demo_own = 1" "miner demo_own = Some 0"
  "miner demo_rival = Some 1" "ident demo_miner = 0"
  by (simp_all add: demo_rival_def demo_own_def demo_miner_def new_block_def new_miner_def
      Let_def)

text \<open>
  C3. When some candidate of maximum height was mined by the evaluating miner,
  \<open>evaluate_candidates\<close> makes such a block (the first one in the list) the new tip,
  whatever the state of the random source, which it does not touch; the candidate list
  is empty afterwards and no other field changes.
\<close>

theorem evaluate_candidates_prefers_own:
  assumes "b \<in> set (block_candidates m)"
    and "height b = Max (set (map height (block_candidates m)))"
    and "is_mine m b"
  shows "\<exists>c. c \<in> set (block_candidates m) \<and>
             height c = Max (set (map height (block_candidates m))) \<and>
             is_mine m c \<and>
             (\<forall>g. evaluate_candidates m g =
                   Inr (m\<lparr>current_block := c, block_candidates := []\<rparr>, g))"
proof -
  let ?top = "filter (\<lambda>b. height b = Max (set (map height (block_candidates m))))
                (block_candidates m)"
  from assms have "b \<in> set ?top" by simp
  with assms(3) have "find (is_mine m) ?top \<noteq> None"
    by (auto simp: find_None_iff)
  then obtain c where c: "find (is_mine m) ?top = Some c" by auto
  then have "c \<in> set ?top" and "is_mine m c"
    by (auto dest: find_SomeD)
  moreover from assms(1) have "block_candidates m \<noteq> []" by auto
  ultimately show ?thesis
    using c by (intro exI [of _ c]) (simp add: evaluate_candidates_def Let_def)
qed

theorem evaluate_candidates_prefers_own_witness:
  "\<exists>c. c \<in> set [demo_rival, demo_own] \<and> height c = 1 \<and> miner c = Some 0 \<and>
       (\<forall>g. evaluate_candidates (demo_miner\<lparr>block_candidates := [demo_rival, demo_own]\<rparr>) g =
             Inr (demo_miner\<lparr>block_candidates := [demo_rival, demo_own]\<rparr>
                    \<lparr>current_block := c, block_candidates := []\<rparr>, g))"
  using evaluate_candidates_prefers_own
    [of demo_own "demo_miner\<lparr>block_candidates := [demo_rival, demo_own]\<rparr>"]
  by (simp add: demo_heights is_mine_def)

lemma mine_returns: "\<exists>r. mine rt t m g = Inr r"
proof (cases "block_candidates m = []")
  case True
  then show ?thesis
    by (simp add: mine_def random_random_def Let_def)
next
  case False
  then obtain m1 g1 where "evaluate_candidates m g = Inr (m1, g1)"
    using evaluate_candidates_succeeds [of m g] by auto
  with False show ?thesis
    by (simp add: mine_def random_random_def Let_def)
qed

section \<open>Errors of a run\<close>

lemma scan_rejects_error: "scan_rejects known rs = Inl e \<Longrightarrow> e = AssertionError"
  by (induction rs) (auto split: option.splits if_splits)

lemma refresh_rejects_error: "refresh_rejects m = Inl e \<Longrightarrow> e = AssertionError"
proof (induction m rule: refresh_rejects.induct)
  case (1 m)
  show ?case
  proof (cases "scan_rejects (known_blocks m) (rejected_blocks m)")
    case (Inl e')
    with "1.prems" show ?thesis
      by (auto simp: refresh_rejects.simps [of m] dest: scan_rejects_error)
  next
    case (Inr hit)
    show ?thesis
    proof (cases hit)
      case None
      with Inr "1.prems" show ?thesis by (simp add: refresh_rejects.simps [of m])
    next
      case (Some x)
      obtain h b where x: "x = (h, b)" by (cases x)
      from Inr Some x "1.prems" "1.IH" [OF Inr Some x [symmetric]]
      show ?thesis by (simp add: refresh_rejects.simps [of m])
    qed
  qed
qed

lemma receive_block_error: "receive_block b m = Inl e \<Longrightarrow> e = AssertionError"
  by (auto simp: receive_block_def split: option.splits if_splits sum.splits
      dest: refresh_rejects_error)

lemma send_block_error: "send_block b r = Inl e \<Longrightarrow> e = AssertionError"
  by (auto simp: send_block_def split: option.splits dest: receive_block_error)

lemma tick_entries_error: "tick_entries es remaining r = Inl e \<Longrightarrow> e = AssertionError"
  by (induction es arbitrary: remaining r)
     (auto split: if_splits sum.splits dest: send_block_error)

lemma tick_error: "tick c r = Inl e \<Longrightarrow> e = AssertionError"
  by (auto simp: tick_def split: if_splits sum.splits dest: tick_entries_error)

lemma send_messages_loop_error: "send_messages_loop i js w = Inl e \<Longrightarrow> e = AssertionError"
  by (induction i js w rule: send_messages_loop.induct)
     (auto simp: Let_def split: sum.splits dest: tick_error)

lemma announcement_phase_error: "announcement_phase is w = Inl e \<Longrightarrow> e = AssertionError"
  by (induction "is" arbitrary: w)
     (auto simp: send_messages_def split: sum.splits dest: send_messages_loop_error)

lemma mining_phase_returns: "\<exists>r. mining_phase rt t is w g = Inr r"
proof (induction "is" arbitrary: w g)
  case Nil
  show ?case by simp
next
  case (Cons i "is")
  obtain m' g' where "mine rt t (w ! i) g = Inr (m', g')"
    using mine_returns [of rt t "w ! i" g] by auto
  with Cons.IH [of "w[i := m']" g'] show ?case by simp
qed

lemma mining_phase_no_error: "mining_phase rt t is w g \<noteq> Inl e"
  using mining_phase_returns [of rt t "is" w g] by auto

lemma sim_tick_error: "sim_tick rt t w g = Inl e \<Longrightarrow> e = AssertionError"
  by (auto simp: sim_tick_def mining_phase_no_error split: sum.splits
      dest: announcement_phase_error)

lemma run_ticks_error: "run_ticks rt ts w g = Inl e \<Longrightarrow> e = AssertionError"
  by (induction ts arbitrary: w g) (auto split: sum.splits dest: sim_tick_error)

lemma report_miner_error: "report_miner m = Inl e \<Longrightarrow> e = ZeroDivisionError"
  by (auto simp: report_miner_def truediv_def Let_def split: sum.splits if_splits)

lemma report_all_error: "report_all ms = Inl e \<Longrightarrow> e = ZeroDivisionError"
  by (induction ms) (auto split: sum.splits dest: report_miner_error)

lemma main_error: "main rt g periods = Inl e \<Longrightarrow> e = AssertionError \<or> e = ZeroDivisionError"
  by (auto simp: main_def split: sum.splits dest: run_ticks_error report_all_error)

text \<open>
  C9. \<open>evaluate_candidates\<close> fails (the ValueError of \<open>max\<close>) on an empty candidate
  list and returns on every other; \<open>mine\<close>, its only caller, calls it only when the list
  is not empty, so \<open>mine\<close> always returns, and no run of \<open>main\<close> ends with this error.
\<close>

theorem evaluate_candidates_precondition:
  "(block_candidates m = [] \<longrightarrow> evaluate_candidates m g = Inl ValueError) \<and>
   (block_candidates m \<noteq> [] \<longrightarrow> (\<exists>r. evaluate_candidates m g = Inr r)) \<and>
   (\<exists>r. mine rt t m g = Inr r) \<and>
   main rt g periods \<noteq> Inl ValueError"
proof (intro conjI impI)
  assume "block_candidates m = []"
  then show "evaluate_candidates m g = Inl ValueError"
    by (simp add: evaluate_candidates_def)
next
  assume "block_candidates m \<noteq> []"
  then show "\<exists>r. evaluate_candidates m g = Inr r"
    by (rule evaluate_candidates_succeeds)
next
  show "\<exists>r. mine rt t m g = Inr r"
    by (rule mine_returns)
next
  show "main rt g periods \<noteq> Inl ValueError"
    using main_error [of rt g periods ValueError] by auto
qed

theorem evaluate_candidates_precondition_witness:
  "evaluate_candidates demo_miner demo_rng = Inl ValueError \<and>
   (\<exists>r. evaluate_candidates (demo_miner\<lparr>block_candidates := [demo_rival]\<rparr>) demo_rng = Inr r) \<and>
   (\<exists>r. mine demo_runtime 7 (demo_miner\<lparr>block_candidates := [demo_rival]\<rparr>) demo_rng = Inr r)"
  using evaluate_candidates_precondition [of demo_miner demo_rng demo_runtime 7]
    evaluate_candidates_precondition
      [of "demo_miner\<lparr>block_candidates := [demo_rival]\<rparr>" demo_rng demo_runtime 7]
  by (simp add: demo_miner_def new_miner_def)

section \<open>Receiving blocks\<close>

text \<open>
  C10. A block that is not known and whose parent is not known only enters
  \<open>rejected_blocks\<close>, under its hash: the result is the miner with that one field
  updated, so the known blocks, the tip, the candidates, the counter of mined blocks and
  the connections with their queues are as before.
\<close>

theorem receive_block_orphan_frame:
  assumes "\<not> contains (known_blocks m) (hash b)"
    and "parent b = Some p"
    and "\<not> contains (known_blocks m) (hash p)"
  shows "\<exists>m'. receive_block b m = Inr m' \<and>
          m' = m\<lparr>rejected_blocks := AList.update (hash b) b (rejected_blocks m)\<rparr> \<and>
          known_blocks m' = known_blocks m \<and> current_block m' = current_block m \<and>
          block_candidates m' = block_candidates m \<and> blocks_mined m' = blocks_mined m \<and>
          connections m' = connections m"
  using assms by (simp add: receive_block_def)

text \<open>
  C6. A second \<open>receive_block\<close> of the same block leaves the miner as the first call
  left it: in particular \<open>known_blocks\<close> and the candidate list.
\<close>

theorem receive_block_idempotent:
  assumes "receive_block b m = Inr m'"
  shows "receive_block b m' = Inr m'"
proof (cases "parent b")
  case None
  with assms show ?thesis by (simp add: receive_block_def)
next
  case (Some p)
  show ?thesis
  proof (cases "contains (known_blocks m) (hash b)")
    case True
    with Some assms show ?thesis by (auto simp: receive_block_def)
  next
    case unknown: False
    show ?thesis
    proof (cases "contains (known_blocks m) (hash p)")
      case False
      with Some unknown assms show ?thesis by (auto simp: receive_block_def)
    next
      case True
      let ?m1 = "m\<lparr>known_blocks := AList.update (hash b) b (known_blocks m)\<rparr>"
      from Some unknown True assms obtain m2 where
        r: "refresh_rejects ?m1 = Inr m2" and
        m': "m' = (if height b > height (current_block m2)
                   then m2\<lparr>block_candidates := block_candidates m2 @ [b]\<rparr> else m2)"
        by (auto simp: receive_block_def split: sum.splits if_splits)
      have "contains (known_blocks ?m1) (hash b)" by (simp add: contains_update)
      with r have "contains (known_blocks m2) (hash b)" by (rule refresh_rejects_known_mono)
      with m' have "contains (known_blocks m') (hash b)" by simp
      with Some show ?thesis by (simp add: receive_block_def)
    qed
  qed
qed

lemma demo_blocks:
  "parent demo_rival = Some (genesis_block demo_runtime)"
  "parent demo_own = Some (genesis_block demo_runtime)"
  "parent demo_child = Some demo_rival"
  "height (genesis_block demo_runtime) = 0"
  "height demo_child = 2"
  "hash (genesis_block demo_runtime) = ''0None'' @ replicate 64 CHR ''0''"
  "hash demo_rival = ''1<Miner 1>0None'' @ replicate 64 CHR ''0''"
  "hash demo_own = ''1<Miner 0>0None'' @ replicate 64 CHR ''0''"
  "hash demo_child = ''2<Miner 2>1<Miner 1>0None'' @ replicate 64 CHR ''0''"
  by (simp_all add: demo_rival_def demo_own_def demo_child_def genesis_block_def
      new_block_def demo_runtime_def fmt_miner_def str_int_def str_nat.simps Let_def)

lemma demo_miner_fields:
  "known_blocks demo_miner =
     [(hash (genesis_block demo_runtime), genesis_block demo_runtime)]"
  "rejected_blocks demo_miner = []"
  "block_candidates demo_miner = []"
  "current_block demo_miner = genesis_block demo_runtime"
  by (simp_all add: demo_miner_def new_miner_def)

theorem receive_block_orphan_frame_witness:
  "receive_block demo_child demo_miner =
     Inr (demo_miner\<lparr>rejected_blocks := [(hash demo_child, demo_child)]\<rparr>)"
  using receive_block_orphan_frame [of demo_miner demo_child demo_rival]
  by (simp add: demo_blocks demo_miner_fields contains_def)

theorem receive_block_idempotent_witness:
  "receive_block demo_rival
     (demo_miner\<lparr>known_blocks := known_blocks demo_miner @ [(hash demo_rival, demo_rival)],
                 block_candidates := [demo_rival]\<rparr>) =
   Inr (demo_miner\<lparr>known_blocks := known_blocks demo_miner @ [(hash demo_rival, demo_rival)],
                    block_candidates := [demo_rival]\<rparr>)"
proof -
  have "receive_block demo_rival demo_miner =
     Inr (demo_miner\<lparr>known_blocks := known_blocks demo_miner @ [(hash demo_rival, demo_rival)],
                      block_candidates := [demo_rival]\<rparr>)"
    by (simp add: receive_block_def demo_blocks demo_miner_fields contains_def
        refresh_rejects.simps demo_heights)
  then show ?thesis by (rule receive_block_idempotent)
qed

section \<open>Connections\<close>





lemma delay_after: "delay (after evs c) = delay c"
  by (induction evs c rule: after.induct) (auto simp: queue_block_def)





section \<open>Reconciliation and the candidate list\<close>

lemma scan_rejects_exhausted:
  "scan_rejects known rs = Inr None \<Longrightarrow> list_all (\<lambda>x. \<not> known_parent known (snd x)) rs"
  by (induction rs) (auto simp: known_parent_def split: option.splits if_splits)

text \<open>
  What does hold of reconciliation: when \<open>refresh_rejects\<close> returns, no rejected block
  has a parent whose hash is known, and a block leaves \<open>rejected_blocks\<close> only into
  \<open>known_blocks\<close>; \<open>receive_block\<close> keeps \<open>rejected_blocks\<close> free of blocks with a known
  parent.
\<close>

lemma refresh_rejects_exhaustive:
  assumes "refresh_rejects m = Inr m'"
  shows "rejects_are_orphans m'"
  using refresh_rejects_rule [OF assms, where P = "\<lambda>x. True"]
  by (auto simp: rejects_are_orphans_def dest: scan_rejects_exhausted)

lemma refresh_rejects_moves_to_known:
  assumes "refresh_rejects m = Inr m'" and "contains (rejected_blocks m) k"
  shows "contains (rejected_blocks m') k \<or> contains (known_blocks m') k"
proof -
  have "contains (AList.delete h (rejected_blocks x)) k \<or>
        contains (AList.update h b (known_blocks x)) k"
    if "contains (rejected_blocks x) k \<or> contains (known_blocks x) k" for x :: miner and h b
    using that by (auto simp: contains_update contains_delete)
  with refresh_rejects_rule [OF assms(1),
      where P = "\<lambda>x. contains (rejected_blocks x) k \<or> contains (known_blocks x) k"] assms(2)
  show ?thesis by simp
qed

lemma receive_block_rejects_are_orphans:
  assumes "rejects_are_orphans m" and "receive_block b m = Inr m'"
  shows "rejects_are_orphans m'"
proof (cases "parent b")
  case None
  with assms show ?thesis by (simp add: receive_block_def)
next
  case (Some p)
  show ?thesis
  proof (cases "contains (known_blocks m) (hash b)")
    case True
    with Some assms show ?thesis by (auto simp: receive_block_def)
  next
    case unknown: False
    show ?thesis
    proof (cases "contains (known_blocks m) (hash p)")
      case False
      have upd: "set (AList.update (hash b) b (rejected_blocks m))
              \<subseteq> insert (hash b, b) (set (rejected_blocks m))"
        by (rule set_update_subset)
      from Some False have "\<not> known_parent (known_blocks m) b"
        by (simp add: known_parent_def)
      with assms(1) upd
      have "\<forall>x \<in> set (AList.update (hash b) b (rejected_blocks m)).
              \<not> known_parent (known_blocks m) (snd x)"
        by (auto simp: rejects_are_orphans_def list_all_iff)
      moreover from False Some unknown assms(2)
      have "m' = m\<lparr>rejected_blocks := AList.update (hash b) b (rejected_blocks m)\<rparr>"
        by (simp add: receive_block_def)
      ultimately show ?thesis
        by (simp add: rejects_are_orphans_def list_all_iff)
    next
      case True
      with Some unknown assms obtain m2 where
        r: "refresh_rejects (m\<lparr>known_blocks := AList.update (hash b) b (known_blocks m)\<rparr>)
              = Inr m2" and
        m': "m' = (if height b > height (current_block m2)
                   then m2\<lparr>block_candidates := block_candidates m2 @ [b]\<rparr> else m2)"
        by (auto simp: receive_block_def split: sum.splits if_splits)
      from r have "rejects_are_orphans m2" by (rule refresh_rejects_exhaustive)
      with m' show ?thesis by (simp add: rejects_are_orphans_def)
    qed
  qed
qed

lemma receive_block_moves_to_known:
  assumes "receive_block b m = Inr m'" and "contains (rejected_blocks m) k"
  shows "contains (rejected_blocks m') k \<or> contains (known_blocks m') k"
proof (cases "parent b")
  case None
  with assms show ?thesis by (simp add: receive_block_def)
next
  case (Some p)
  show ?thesis
  proof (cases "contains (known_blocks m) (hash b)")
    case True
    with Some assms show ?thesis by (auto simp: receive_block_def)
  next
    case unknown: False
    show ?thesis
    proof (cases "contains (known_blocks m) (hash p)")
      case False
      with Some unknown assms show ?thesis
        by (auto simp: receive_block_def contains_update)
    next
      case True
      with Some unknown assms obtain m2 where
        r: "refresh_rejects (m\<lparr>known_blocks := AList.update (hash b) b (known_blocks m)\<rparr>)
              = Inr m2" and
        m': "m' = (if height b > height (current_block m2)
                   then m2\<lparr>block_candidates := block_candidates m2 @ [b]\<rparr> else m2)"
        by (auto simp: receive_block_def split: sum.splits if_splits)
      from refresh_rejects_moves_to_known [OF r, of k] assms(2) m'
      show ?thesis by auto
    qed
  qed
qed

text \<open>
  \<open>receive_block\<close> appends at most the block it was called with to the candidate list:
  the blocks that \<open>refresh_rejects\<close> moves never become candidates.
\<close>

lemma receive_block_candidates:
  assumes "receive_block b m = Inr m'"
  shows "block_candidates m' = block_candidates m \<or>
         block_candidates m' = block_candidates m @ [b]"
  using assms
  by (auto simp: receive_block_def split: option.splits if_splits sum.splits
      dest: refresh_rejects_frame)

text \<open>
  C1. An orphan that \<open>refresh_rejects\<close> moves into \<open>known_blocks\<close> is not appended to
  the candidate list, although its height exceeds the height of the tip. A miner that
  knows only the block \<open>gen\<close> receives \<open>b2\<close>, a child of \<open>b1\<close>, before \<open>b1\<close>, a child of
  \<open>gen\<close>: \<open>b2\<close> is rejected; when \<open>b1\<close> arrives, \<open>b2\<close> leaves \<open>rejected_blocks\<close> and is
  known, it is higher than the tip, and it is not a candidate.
\<close>

theorem reconciled_orphan_is_no_candidate:
  assumes "parent b1 = Some gen" and "parent b2 = Some b1"
    and "hash b1 \<noteq> hash gen" and "hash b2 \<noteq> hash gen" and "hash b2 \<noteq> hash b1"
    and "height gen < height b2"
  shows "\<exists>m1 m2. receive_block b2 (new_miner i nm gen hr) = Inr m1 \<and>
           contains (rejected_blocks m1) (hash b2) \<and>
           receive_block b1 m1 = Inr m2 \<and>
           \<not> contains (rejected_blocks m2) (hash b2) \<and>
           contains (known_blocks m2) (hash b2) \<and>
           height (current_block m2) < height b2 \<and>
           b2 \<notin> set (block_candidates m2)"
proof -
  from assms(5) have "b2 \<noteq> b1" by auto
  with assms show ?thesis
    by (auto simp: receive_block_def new_miner_def contains_def refresh_rejects.simps)
qed

theorem reconciled_orphan_is_no_candidate_witness:
  "\<exists>m1 m2. receive_block demo_child demo_miner = Inr m1 \<and>
           contains (rejected_blocks m1) (hash demo_child) \<and>
           receive_block demo_rival m1 = Inr m2 \<and>
           \<not> contains (rejected_blocks m2) (hash demo_child) \<and>
           contains (known_blocks m2) (hash demo_child) \<and>
           height (current_block m2) < height demo_child \<and>
           demo_child \<notin> set (block_candidates m2)"
  using reconciled_orphan_is_no_candidate
    [of demo_rival "genesis_block demo_runtime" demo_child 0 "''A''" "3 / 10"]
  by (simp add: demo_blocks demo_miner_def)

section \<open>The invariant of a miner\<close>




section \<open>The driver\<close>

text \<open>
  C5. The loop of \<open>main\<close> runs over \<open>range(1, seconds_to_simulate)\<close>, one tick per
  element: \<open>periods * 600 - 1\<close> ticks for a positive number of periods (none otherwise),
  and 599 for one period.
\<close>

theorem main_loop_runs_one_tick_less:
  "length (py_range 1 (seconds_to_simulate periods)) = nat (periods * 600 - 1) \<and>
   length (py_range 1 (seconds_to_simulate 1)) = 599 \<and>
   main rt g periods =
     (case run_ticks rt (py_range 1 (seconds_to_simulate periods)) (initial_miners rt) g of
        Inl e \<Rightarrow> Inl e
      | Inr (w, g') \<Rightarrow>
          (case report_all w of Inl e \<Rightarrow> Inl e | Inr ss \<Rightarrow> Inr (w, ss)))"
  by (simp add: py_range_def seconds_to_simulate_def main_def)

text \<open>
  C8. The report of a miner that has mined no block raises ZeroDivisionError at
  \<open>stale_blocks / miner.blocks_mined\<close>; a run of zero periods ends with this error,
  since no miner has mined.
\<close>

theorem report_divides_by_zero:
  "(blocks_mined m = 0 \<longrightarrow> report_miner m = Inl ZeroDivisionError) \<and>
   main rt g 0 = Inl ZeroDivisionError"
proof
  show "blocks_mined m = 0 \<longrightarrow> report_miner m = Inl ZeroDivisionError"
    by (auto simp: report_miner_def truediv_def Let_def split: sum.splits)
  have "report_miner (hd (initial_miners rt)) = Inl ZeroDivisionError"
    by (simp add: report_miner_def truediv_def Let_def initial_miners_def add_connection_def
        new_miner_def genesis_block_def new_block_def)
  then show "main rt g 0 = Inl ZeroDivisionError"
    by (simp add: main_def py_range_def seconds_to_simulate_def initial_miners_def)
qed

theorem report_divides_by_zero_witness:
  "blocks_mined demo_miner = 0 \<and> report_miner demo_miner = Inl ZeroDivisionError"
  using report_divides_by_zero [of demo_miner]
  by (simp add: demo_miner_def new_miner_def)

end
